theory Spec2Isabelle
  imports Main "HOL-Library.Char_ord" "HOL-Library.List_Lexorder" "HOL-Library.Multiset"
begin

section \<open>Strings as the program sees them\<close>

text \<open>
  A Go string is a sequence of bytes, modelled as \<^typ>\<open>string\<close>. The library functions of
  package \<open>strings\<close> that the program calls are written out on bytes. Case mapping and
  white space are those of ASCII: a byte outside ASCII is left as it is, where Go would
  decode it as part of a Unicode letter. The order of \<^typ>\<open>string\<close> is the order of
  \<open>sort.Strings\<close>: lexicographic on the bytes.
\<close>

definition upper_letters :: string where
  "upper_letters = ''ABCDEFGHIJKLMNOPQRSTUVWXYZ''"

definition lower_letters :: string where
  "lower_letters = ''abcdefghijklmnopqrstuvwxyz''"

definition to_lower_char :: "char \<Rightarrow> char" where
  "to_lower_char c =
     (case map_of (zip upper_letters lower_letters) c of Some l \<Rightarrow> l | None \<Rightarrow> c)"

definition to_upper_char :: "char \<Rightarrow> char" where
  "to_upper_char c =
     (case map_of (zip lower_letters upper_letters) c of Some u \<Rightarrow> u | None \<Rightarrow> c)"

text \<open>\<open>strings.ToLower\<close> and \<open>strings.ToUpper\<close>.\<close>

definition to_lower :: "string \<Rightarrow> string" where
  "to_lower s = map to_lower_char s"

definition to_upper :: "string \<Rightarrow> string" where
  "to_upper s = map to_upper_char s"

text \<open>\<open>strings.HasPrefix\<close>, \<open>strings.HasSuffix\<close>, \<open>strings.TrimSuffix\<close>.\<close>

definition has_prefix :: "string \<Rightarrow> string \<Rightarrow> bool" where
  "has_prefix s p = (take (length p) s = p)"

definition has_suffix :: "string \<Rightarrow> string \<Rightarrow> bool" where
  "has_suffix s p = (length p \<le> length s \<and> drop (length s - length p) s = p)"

definition trim_suffix :: "string \<Rightarrow> string \<Rightarrow> string" where
  "trim_suffix s p = (if has_suffix s p then take (length s - length p) s else s)"

text \<open>
  \<open>strings.Split(s, sep)\<close> for a separator of one byte: the result always has at least
  one element, and \<open>n\<close> separators give \<open>n + 1\<close> elements.
\<close>

fun split_on :: "char \<Rightarrow> string \<Rightarrow> string list" where
  "split_on sep [] = [[]]"
| "split_on sep (c # cs) =
     (if c = sep then [] # split_on sep cs
      else (case split_on sep cs of
              [] \<Rightarrow> [[c]]
            | w # ws \<Rightarrow> (c # w) # ws))"

text \<open>\<open>strings.Join(elems, sep)\<close>.\<close>

fun join_with :: "string \<Rightarrow> string list \<Rightarrow> string" where
  "join_with sep [] = []"
| "join_with sep [x] = x"
| "join_with sep (x # y # ys) = x @ sep @ join_with sep (y # ys)"

text \<open>\<open>strings.Trim(s, "/")\<close>: every leading and trailing slash is removed.\<close>

definition trim_slashes :: "string \<Rightarrow> string" where
  "trim_slashes s =
     rev (dropWhile (\<lambda>c. c = CHR ''/'') (rev (dropWhile (\<lambda>c. c = CHR ''/'') s)))"

text \<open>The white space of \<open>strings.TrimSpace\<close> on ASCII: tab, line feed, vertical tab,
  form feed, carriage return and space.\<close>

definition is_space :: "char \<Rightarrow> bool" where
  "is_space c = (c \<in> set [CHR 0x09, CHR 0x0A, CHR 0x0B, CHR 0x0C, CHR 0x0D, CHR 0x20])"

definition trim_space :: "string \<Rightarrow> string" where
  "trim_space s = rev (dropWhile is_space (rev (dropWhile is_space s)))"

definition is_digit :: "char \<Rightarrow> bool" where
  "is_digit c = (c \<in> set ''0123456789'')"

definition is_lower_alnum :: "char \<Rightarrow> bool" where
  "is_lower_alnum c = (c \<in> set lower_letters \<or> is_digit c)"

section \<open>Paths: the functions of \<open>path/filepath\<close> the program calls\<close>

text \<open>
  The program runs on a system whose separator is the slash, so \<open>filepath.ToSlash\<close> is the
  identity and a path has no volume name. The library functions are written on the list
  of the elements of a path.

  \<open>filepath.Clean\<close>: empty elements and \<open>.\<close> are dropped, \<open>..\<close> removes the element
  before it (at the root it is dropped, at the start of a relative path it stays), and
  the empty result is \<open>.\<close>.
\<close>

definition is_rooted :: "string \<Rightarrow> bool" where
  "is_rooted p = has_prefix p ''/''"

definition clean_step :: "bool \<Rightarrow> string list \<Rightarrow> string \<Rightarrow> string list" where
  "clean_step rooted st s =
     (if s = [] \<or> s = ''.'' then st
      else if s = ''..'' then
        (if st \<noteq> [] \<and> last st \<noteq> ''..'' then butlast st
         else if rooted then st
         else st @ [s])
      else st @ [s])"

definition filepath_Clean :: "string \<Rightarrow> string" where
  "filepath_Clean p =
     (let out = (if is_rooted p then ''/'' else []) @
                join_with ''/'' (foldl (clean_step (is_rooted p)) [] (split_on CHR ''/'' p))
      in if out = [] then ''.'' else out)"

text \<open>\<open>filepath.Join\<close> of two elements: the non-empty ones, joined by a slash and cleaned.\<close>

definition filepath_Join :: "string \<Rightarrow> string \<Rightarrow> string" where
  "filepath_Join a b =
     (if a = [] \<and> b = [] then []
      else filepath_Clean (join_with ''/'' (filter (\<lambda>e. e \<noteq> []) [a, b])))"

text \<open>
  \<open>filepath.Dir\<close>: the path up to and with its last slash, cleaned. \<open>filepath.Base\<close>: the
  last element, after the trailing slashes are removed.
\<close>

definition filepath_Dir :: "string \<Rightarrow> string" where
  "filepath_Dir p = filepath_Clean (rev (dropWhile (\<lambda>c. c \<noteq> CHR ''/'') (rev p)))"

definition filepath_Base :: "string \<Rightarrow> string" where
  "filepath_Base p =
     (if p = [] then ''.''
      else (let q = rev (dropWhile (\<lambda>c. c = CHR ''/'') (rev p));
                b = rev (takeWhile (\<lambda>c. c \<noteq> CHR ''/'') (rev q))
            in if b = [] then ''/'' else b))"

text \<open>
  The elements \<open>filepath.Rel\<close> compares, one after the other from the start of a cleaned
  path: an absolute path starts with the empty element, and nothing follows a last
  slash.
\<close>

definition path_elems :: "string \<Rightarrow> string list" where
  "path_elems p = (let xs = split_on CHR ''/'' p in if last xs = [] then butlast xs else xs)"

fun drop_common :: "string list \<Rightarrow> string list \<Rightarrow> string list \<times> string list" where
  "drop_common (b # bs) (t # ts) = (if b = t then drop_common bs ts else (b # bs, t # ts))"
| "drop_common bs ts = (bs, ts)"

text \<open>
  \<open>filepath.Rel(basepath, targpath)\<close>: both paths are cleaned; equal paths give \<open>.\<close>; an
  absolute and a relative path give an error; the common leading elements are dropped;
  an element \<open>..\<close> left at the head of the base gives an error (the result would depend
  on the working directory); each element left of the base becomes \<open>..\<close>, and what is
  left of the target follows. The program calls it on absolute paths: its directories
  are made absolute with the working directory when the configuration is built.
\<close>

datatype go_error =
    RelError string string
  | OSError string
  | UnknownPreset string
  | ReadFailed string go_error
  | ParseFailed string go_error
  | StoppedEarly
  | ValidationFailed

definition filepath_Rel :: "string \<Rightarrow> string \<Rightarrow> go_error + string" where
  "filepath_Rel basepath targpath =
     (let base = filepath_Clean basepath; targ = filepath_Clean targpath in
      if targ = base then Inr ''.''
      else
        (let base' = (if base = ''.'' then [] else base) in
         if is_rooted base' \<noteq> is_rooted targ then Inl (RelError targpath basepath)
         else
           (case drop_common (path_elems base') (path_elems targ) of (bs, ts) \<Rightarrow>
              if bs \<noteq> [] \<and> hd bs = ''..'' then Inl (RelError targpath basepath)
              else Inr (join_with ''/'' (replicate (length bs) ''..'' @ ts)))))"

section \<open>Names: path keys and component names\<close>

text \<open>
  \<open>kebabToCamel\<close>: the loop over the bytes of \<open>s\<close> with its two variables, the output
  \<open>out\<close> and the flag \<open>up\<close>. For an ASCII byte \<open>c\<close>, \<open>string(c)\<close> is that byte.
\<close>

fun kebab_loop :: "string \<Rightarrow> string \<Rightarrow> bool \<Rightarrow> string" where
  "kebab_loop [] out up = out"
| "kebab_loop (c # cs) out up =
     (if c = CHR ''-'' \<or> c = CHR ''_'' \<or> c = CHR '' '' then kebab_loop cs out True
      else if up then kebab_loop cs (out @ to_upper [c]) False
      else kebab_loop cs (out @ [c]) False)"

definition kebabToCamel :: "string \<Rightarrow> string" where
  "kebabToCamel s = kebab_loop s [] False"

definition pascalCase :: "string \<Rightarrow> string" where
  "pascalCase s =
     (let camel = kebabToCamel s in
      if camel = [] then camel else to_upper (take 1 camel) @ drop 1 camel)"

text \<open>\<open>buildPathKey\<close>: the empty key tells the caller to skip the fragment.\<close>

definition buildPathKey :: "string \<Rightarrow> string \<Rightarrow> string" where
  "buildPathKey pathsDir fullPath =
     (case filepath_Rel pathsDir fullPath of
        Inl err \<Rightarrow> []
      | Inr rel \<Rightarrow>
          (let segs0 = split_on CHR ''/'' rel in
           if length segs0 = 0 then []
           else
             (let file = last segs0;
                  segs = butlast segs0;
                  nameNoExt = trim_suffix file ''.yaml'';
                  tail = kebabToCamel nameNoExt
              in if length segs = 0 then ''/'' @ tail
                 else
                   (let version = hd segs;
                        remainder = (if length segs > 1 then join_with ''/'' (tl segs) else [])
                    in if remainder \<noteq> [] then ''/'' @ version @ ''/'' @ remainder @ ''/'' @ tail
                       else ''/'' @ version @ ''/'' @ tail))))"

text \<open>\<open>relFrom\<close>: the pointer a reference-style root writes for a fragment.\<close>

definition relFrom :: "string \<Rightarrow> string \<Rightarrow> string" where
  "relFrom baseDir target =
     (case filepath_Rel baseDir target of
        Inl err \<Rightarrow> target
      | Inr rel \<Rightarrow>
          if rel = [] \<or> rel = ''.'' then ''./''
          else if has_prefix rel ''.'' \<or> has_prefix rel ''/'' then rel
          else ''./'' @ rel)"

section \<open>The fragment store\<close>

text \<open>
  The file system the program reads is a tree. A directory holds its entries as
  \<open>os.ReadDir\<close> returns them (sorted by file name); \<^term>\<open>UnreadableDir\<close> is a directory
  whose entries cannot be read; \<^term>\<open>Special\<close> is whatever is neither a regular file nor a
  directory (a symbolic link, a device, a socket).
\<close>

datatype fnode =
    RegularFile string
  | Directory "(string \<times> fnode) list"
  | UnreadableDir
  | Special

fun stat_from :: "fnode \<Rightarrow> string list \<Rightarrow> fnode option" where
  "stat_from n [] = Some n"
| "stat_from (Directory es) (x # xs) =
     (case map_of es x of None \<Rightarrow> None | Some c \<Rightarrow> stat_from c xs)"
| "stat_from n (x # xs) = None"

text \<open>
  \<open>os.Stat\<close> of an absolute path, from the root directory \<open>fs\<close> of the file system.
  Symbolic links are not followed: they are \<^term>\<open>Special\<close> for \<open>os.Stat\<close> as they are
  for the walk.
\<close>

definition os_Stat :: "fnode \<Rightarrow> string \<Rightarrow> fnode option" where
  "os_Stat fs p = stat_from fs (filter (\<lambda>e. e \<noteq> []) (path_elems (filepath_Clean p)))"

definition isDir :: "fnode \<Rightarrow> bool" where
  "isDir n = (case n of Directory es \<Rightarrow> True | UnreadableDir \<Rightarrow> True | _ \<Rightarrow> False)"

definition isRegular :: "fnode \<Rightarrow> bool" where
  "isRegular n = (case n of RegularFile c \<Rightarrow> True | _ \<Rightarrow> False)"

text \<open>
  What the function handed to \<open>filepath.WalkDir\<close> returns: \<open>nil\<close>, \<open>filepath.SkipDir\<close> or the
  error it was called with. The slice \<open>files\<close> it appends to is passed through.
\<close>

datatype walk_ctl = Continue | SkipDir | Abort go_error

definition visit ::
  "string \<Rightarrow> string \<Rightarrow> string \<Rightarrow> fnode \<Rightarrow> go_error option \<Rightarrow> string list \<Rightarrow> walk_ctl \<times> string list"
where
  "visit root path name d err files =
     (case err of
        Some e \<Rightarrow> (Abort e, files)
      | None \<Rightarrow>
          if has_prefix name ''.'' \<and> isDir d \<and> path \<noteq> root then (SkipDir, files)
          else if isRegular d \<and> has_suffix (to_lower name) ''.yaml'' then (Continue, files @ [path])
          else (Continue, files))"

text \<open>
  \<open>filepath.WalkDir\<close>: the function is called on the entry; a directory that is not skipped
  is read, the function is called again when the read fails, and the entries are walked
  in their order.
\<close>

fun walkDir ::
  "string \<Rightarrow> string \<Rightarrow> string \<Rightarrow> fnode \<Rightarrow> string list \<Rightarrow> go_error option \<times> string list"
and walkEntries ::
  "string \<Rightarrow> string \<Rightarrow> (string \<times> fnode) list \<Rightarrow> string list \<Rightarrow> go_error option \<times> string list"
where
  "walkDir root path name d files =
     (case visit root path name d None files of
        (SkipDir, files') \<Rightarrow> (None, files')
      | (Abort e, files') \<Rightarrow> (Some e, files')
      | (Continue, files') \<Rightarrow>
          (case d of
             Directory es \<Rightarrow> walkEntries root path es files'
           | UnreadableDir \<Rightarrow>
               (case visit root path name d (Some (OSError path)) files' of
                  (Abort e, files'') \<Rightarrow> (Some e, files'')
                | (ctl, files'') \<Rightarrow> (None, files''))
           | _ \<Rightarrow> (None, files')))"
| "walkEntries root path [] files = (None, files)"
| "walkEntries root path ((name1, d1) # rest) files =
     (case walkDir root (filepath_Join path name1) name1 d1 files of
        (Some e, files') \<Rightarrow> (Some e, files')
      | (None, files') \<Rightarrow> walkEntries root path rest files')"

text \<open>\<open>listYAMLFiles\<close> returns the files and the error of the walk, as the source does.\<close>

definition listYAMLFiles :: "fnode \<Rightarrow> string \<Rightarrow> string list \<times> go_error option" where
  "listYAMLFiles fs root =
     (case os_Stat fs root of
        None \<Rightarrow> ([], None)
      | Some st \<Rightarrow>
          if \<not> isDir st then ([], None)
          else (case walkDir root root (filepath_Base root) st [] of
                  (err, files) \<Rightarrow> (files, err)))"

text \<open>\<open>readText\<close>.\<close>

definition readText :: "fnode \<Rightarrow> string \<Rightarrow> go_error + string" where
  "readText fs path =
     (case os_Stat fs path of
        Some (RegularFile content) \<Rightarrow> Inr content
      | _ \<Rightarrow> Inl (OSError path))"

text \<open>
  The vocabulary of the specification for the fragment store: a name is an ordinary
  path element, a tree is well formed when every directory has ordinary, distinct names
  and can be read.
\<close>

definition normal_seg :: "string \<Rightarrow> bool" where
  "normal_seg s = (s \<noteq> [] \<and> CHR ''/'' \<notin> set s \<and> s \<noteq> ''.'' \<and> s \<noteq> ''..'')"

fun wf_tree :: "fnode \<Rightarrow> bool" where
  "wf_tree (Directory es) =
     (distinct (map fst es) \<and> list_all (\<lambda>e. normal_seg (fst e) \<and> wf_tree (snd e)) es)"
| "wf_tree UnreadableDir = False"
| "wf_tree n = True"

definition dotted :: "string \<Rightarrow> bool" where
  "dotted name = has_prefix name ''.''"

section \<open>The name resolver and the reference rewriter\<close>

text \<open>
  \<open>buildNameMap\<close>: the loop over the listed files, each storing two keys. The error of the
  listing is dropped, as in the source. A Go map is a partial function; reading a key
  that is not there gives the empty string.
\<close>

definition name_entry :: "(string \<rightharpoonup> string) \<Rightarrow> string \<Rightarrow> (string \<rightharpoonup> string)" where
  "name_entry m f =
     (let base = trim_suffix (filepath_Base f) ''.yaml'';
          name = pascalCase base
      in (m(to_lower base \<mapsto> name))(to_lower (filepath_Base f) \<mapsto> name))"

definition name_map_of :: "string list \<Rightarrow> (string \<rightharpoonup> string)" where
  "name_map_of files = foldl name_entry Map.empty files"


definition map_get :: "(string \<rightharpoonup> string) \<Rightarrow> string \<Rightarrow> string" where
  "map_get m k = (case m k of None \<Rightarrow> [] | Some v \<Rightarrow> v)"

text \<open>\<open>strings.Index\<close>: where the first occurrence of \<open>sub\<close> starts.\<close>

fun index_of :: "string \<Rightarrow> string \<Rightarrow> nat option" where
  "index_of [] sub = (if sub = [] then Some 0 else None)"
| "index_of (c # cs) sub =
     (if has_prefix (c # cs) sub then Some 0 else map_option Suc (index_of cs sub))"

definition stripQuotes :: "string \<Rightarrow> string" where
  "stripQuotes s0 =
     (let s = trim_space s0 in
      if length s \<ge> 2 \<and>
         ((hd s = CHR 0x22 \<and> last s = CHR 0x22) \<or> (hd s = CHR 0x27 \<and> last s = CHR 0x27))
      then take (length s - 2) (drop 1 s)
      else s)"

text \<open>
  The two regular expressions \<open>reSchemaPath\<close> and \<open>reParamPath\<close>,
  \<open>(?i)(?:^|.*/)(?:components/)?DIR/([^/#\s]+)\.ya?ml$\<close> with \<open>DIR\<close> one of \<open>schemas\<close> and
  \<open>parameters\<close>, on a value that has no line feed. The group has no slash and the match
  ends the value, so the group and the extension are the last element of the value; the
  element before it is \<open>DIR\<close> in any case of letters, since before \<open>DIR\<close> stands the start
  of the value or a slash. The result is the group of \<open>FindStringSubmatch\<close>.
\<close>

definition is_re_space :: "char \<Rightarrow> bool" where
  "is_re_space c = (c \<in> set [CHR 0x09, CHR 0x0A, CHR 0x0C, CHR 0x0D, CHR 0x20])"

definition re_group_ok :: "string \<Rightarrow> bool" where
  "re_group_ok g = (g \<noteq> [] \<and> list_all (\<lambda>c. c \<noteq> CHR ''#'' \<and> \<not> is_re_space c) g)"

definition match_component_path :: "string \<Rightarrow> string \<Rightarrow> string option" where
  "match_component_path dirname val =
     (let segs = split_on CHR ''/'' val in
      if length segs < 2 then None
      else
        (let file = last segs; dir = last (butlast segs);
             g = (if has_suffix (to_lower file) ''.yaml'' then Some (take (length file - 5) file)
                  else if has_suffix (to_lower file) ''.yml'' then Some (take (length file - 4) file)
                  else None)
         in case g of
              None \<Rightarrow> None
            | Some grp \<Rightarrow>
                if to_lower dir = dirname \<and> re_group_ok grp then Some grp else None))"

definition reSchemaPath :: "string \<Rightarrow> string option" where
  "reSchemaPath val = match_component_path ''schemas'' val"

definition reParamPath :: "string \<Rightarrow> string option" where
  "reParamPath val = match_component_path ''parameters'' val"

text \<open>The body of the loop of \<open>rewriteRefs\<close>: what becomes of one line.\<close>

definition rewriteLine :: "(string \<rightharpoonup> string) \<Rightarrow> (string \<rightharpoonup> string) \<Rightarrow> string \<Rightarrow> string" where
  "rewriteLine schemaMap paramMap ln =
     (case index_of ln ''$ref:'' of
        None \<Rightarrow> ln
      | Some idx \<Rightarrow>
          (let left = take idx ln;
               rest = trim_space (drop (idx + length ''$ref:'') ln)
           in if rest = [] then ln
              else
                (let val = stripQuotes rest in
                 if has_prefix val ''#/components/'' then ln
                 else
                   (let low = to_lower val in
                    if has_prefix low ''schema:'' then
                      left @ ''$ref: #/components/schemas/'' @
                        pascalCase (trim_space (drop (length ''schema:'') val))
                    else if has_prefix low ''param:'' then
                      left @ ''$ref: #/components/parameters/'' @
                        pascalCase (trim_space (drop (length ''param:'') val))
                    else
                      (case reSchemaPath val of
                         Some m1 \<Rightarrow>
                           (let name = map_get schemaMap (to_lower m1) in
                            left @ ''$ref: #/components/schemas/'' @
                              (if name = [] then pascalCase m1 else name))
                       | None \<Rightarrow>
                           (case reParamPath val of
                              Some m1 \<Rightarrow>
                                (let name = map_get paramMap (to_lower m1) in
                                 left @ ''$ref: #/components/parameters/'' @
                                   (if name = [] then pascalCase m1 else name))
                            | None \<Rightarrow> ln))))))"

definition rewriteRefs :: "string \<Rightarrow> (string \<rightharpoonup> string) \<Rightarrow> (string \<rightharpoonup> string) \<Rightarrow> string" where
  "rewriteRefs raw schemaMap paramMap =
     join_with [CHR 0x0A] (map (rewriteLine schemaMap paramMap) (split_on (CHR 0x0A) raw))"

text \<open>\<open>indentText\<close>: \<open>strings.TrimRight(out, "\n")\<close> removes every line feed at the end.\<close>

definition indentText :: "string \<Rightarrow> nat \<Rightarrow> string" where
  "indentText s spaces =
     (let pad = replicate spaces CHR '' '';
          lines = map (\<lambda>ln. if ln = [] then ln else pad @ ln) (split_on (CHR 0x0A) s);
          out = join_with [CHR 0x0A] lines
      in rev (dropWhile (\<lambda>c. c = CHR 0x0A) (rev out)) @ [CHR 0x0A])"

section \<open>The root composer\<close>

record Config =
  RootPath :: string
  PathsDir :: string
  SchemasDir :: string
  ParamsDir :: string

definition header_lines :: string where
  "header_lines =
     ''openapi: '' @ [CHR 0x22] @ ''3.0.0'' @ [CHR 0x22, CHR 0x0A] @
     ''info:'' @ [CHR 0x0A] @
     ''  title: API'' @ [CHR 0x0A] @
     ''  version: '' @ [CHR 0x22] @ ''1.0.0'' @ [CHR 0x22, CHR 0x0A]"

text \<open>The three loops of \<open>writeRootYAML\<close>, each the text it prints.\<close>

fun ref_paths :: "Config \<Rightarrow> string list \<Rightarrow> string" where
  "ref_paths cfg [] = []"
| "ref_paths cfg (p # ps) =
     (let key = buildPathKey (PathsDir cfg) p in
      if key = [] then ref_paths cfg ps
      else ''  '' @ key @ '':'' @ [CHR 0x0A] @
           ''    $ref: '' @ relFrom (filepath_Dir (RootPath cfg)) p @ [CHR 0x0A] @
           ref_paths cfg ps)"

fun ref_components :: "Config \<Rightarrow> string list \<Rightarrow> string" where
  "ref_components cfg [] = []"
| "ref_components cfg (s # ss) =
     ''    '' @ pascalCase (trim_suffix (filepath_Base s) ''.yaml'') @ '':'' @ [CHR 0x0A] @
     ''      $ref: '' @ relFrom (filepath_Dir (RootPath cfg)) s @ [CHR 0x0A] @
     ref_components cfg ss"

text \<open>
  What \<open>writeRootYAML\<close> does with the three lists the fragment store gave it: it sorts
  them (\<open>sort.Strings\<close>) and prints the document.
\<close>

definition emitRootYAML :: "Config \<Rightarrow> string list \<Rightarrow> string list \<Rightarrow> string list \<Rightarrow> string" where
  "emitRootYAML cfg paths0 schemas0 params0 =
     (let paths = sort paths0; schemas = sort schemas0; params = sort params0 in
      header_lines @
      ''paths:'' @ [CHR 0x0A] @ ref_paths cfg paths @
      ''components:'' @ [CHR 0x0A] @
      ''  schemas:'' @ [CHR 0x0A] @ ref_components cfg schemas @
      ''  parameters:'' @ [CHR 0x0A] @ ref_components cfg params)"

text \<open>
  \<open>ensureDir\<close> and \<open>os.Create\<close> on the tree: a directory can be made unless an element of
  its path is there and is no directory; a file can be created unless a directory has
  its name. Permissions are not modelled.
\<close>

fun can_mkdir :: "fnode \<Rightarrow> string list \<Rightarrow> bool" where
  "can_mkdir (Directory es) (x # xs) =
     (case map_of es x of None \<Rightarrow> True | Some c \<Rightarrow> can_mkdir c xs)"
| "can_mkdir n [] = isDir n"
| "can_mkdir n (x # xs) = False"

definition ensureDir :: "fnode \<Rightarrow> string \<Rightarrow> go_error option" where
  "ensureDir fs dir =
     (if dir = [] then Some (OSError ''empty dir path'')
      else if can_mkdir fs (filter (\<lambda>e. e \<noteq> []) (path_elems (filepath_Clean dir))) then None
      else Some (OSError dir))"

definition os_Create :: "fnode \<Rightarrow> string \<Rightarrow> go_error option" where
  "os_Create fs path =
     (case os_Stat fs path of
        Some n \<Rightarrow> if isDir n then Some (OSError path) else None
      | None \<Rightarrow> None)"

text \<open>\<open>writeRootYAML\<close>: the error, or the text of the root document.\<close>

definition writeRootYAML :: "fnode \<Rightarrow> Config \<Rightarrow> go_error + string" where
  "writeRootYAML fs cfg =
     (case ensureDir fs (filepath_Dir (RootPath cfg)) of
        Some err \<Rightarrow> Inl err
      | None \<Rightarrow>
     (case listYAMLFiles fs (PathsDir cfg) of
        (paths, Some err) \<Rightarrow> Inl err
      | (paths, None) \<Rightarrow>
     (case listYAMLFiles fs (SchemasDir cfg) of
        (schemas, Some err) \<Rightarrow> Inl err
      | (schemas, None) \<Rightarrow>
     (case listYAMLFiles fs (ParamsDir cfg) of
        (params, Some err) \<Rightarrow> Inl err
      | (params, None) \<Rightarrow>
     (case os_Create fs (RootPath cfg) of
        Some err \<Rightarrow> Inl err
      | None \<Rightarrow> Inr (emitRootYAML cfg paths schemas params))))))"

text \<open>
  The loops of \<open>writeRootJoinedYAML\<close>: a fragment that cannot be read ends the function
  with the error. The text read is the text of the fragment in \<open>fs\<close>; the root document
  is taken not to be one of the fragments it reads.
\<close>

fun joined_paths ::
  "fnode \<Rightarrow> Config \<Rightarrow> (string \<rightharpoonup> string) \<Rightarrow> (string \<rightharpoonup> string) \<Rightarrow> string list \<Rightarrow> go_error + string"
where
  "joined_paths fs cfg schemaMap paramMap [] = Inr []"
| "joined_paths fs cfg schemaMap paramMap (p # ps) =
     (let key = buildPathKey (PathsDir cfg) p in
      if key = [] then joined_paths fs cfg schemaMap paramMap ps
      else
        (case readText fs p of
           Inl err \<Rightarrow> Inl err
         | Inr content \<Rightarrow>
             (case joined_paths fs cfg schemaMap paramMap ps of
                Inl err \<Rightarrow> Inl err
              | Inr tail_txt \<Rightarrow>
                  Inr (''  '' @ key @ '':'' @ [CHR 0x0A] @
                       indentText (rewriteRefs content schemaMap paramMap) 4 @ tail_txt))))"

fun joined_components ::
  "fnode \<Rightarrow> (string \<rightharpoonup> string) \<Rightarrow> (string \<rightharpoonup> string) \<Rightarrow> string list \<Rightarrow> go_error + string"
where
  "joined_components fs schemaMap paramMap [] = Inr []"
| "joined_components fs schemaMap paramMap (s # ss) =
     (case readText fs s of
        Inl err \<Rightarrow> Inl err
      | Inr content \<Rightarrow>
          (case joined_components fs schemaMap paramMap ss of
             Inl err \<Rightarrow> Inl err
           | Inr tail_txt \<Rightarrow>
               Inr (''    '' @ pascalCase (trim_suffix (filepath_Base s) ''.yaml'') @ '':'' @
                    [CHR 0x0A] @
                    indentText (rewriteRefs content schemaMap paramMap) 6 @ tail_txt)))"

text \<open>
  What \<open>writeRootJoinedYAML\<close> does with the lists the fragment store gave it. The three
  lists it emits are sorted; the two name maps are built by \<open>buildNameMap\<close> from its own
  listings of the schema and the parameter directory, \<open>schemaFiles\<close> and \<open>paramFiles\<close>,
  which are not sorted.
\<close>

definition emitRootJoinedYAML ::
  "fnode \<Rightarrow> Config \<Rightarrow> string list \<Rightarrow> string list \<Rightarrow> string list \<Rightarrow> string list \<Rightarrow> string list
     \<Rightarrow> go_error + string"
where
  "emitRootJoinedYAML fs cfg paths0 schemas0 params0 schemaFiles paramFiles =
     (let paths = sort paths0; schemas = sort schemas0; params = sort params0;
          schemaMap = name_map_of schemaFiles;
          paramMap = name_map_of paramFiles
      in case joined_paths fs cfg schemaMap paramMap paths of
           Inl err \<Rightarrow> Inl err
         | Inr ptxt \<Rightarrow>
        (case joined_components fs schemaMap paramMap schemas of
           Inl err \<Rightarrow> Inl err
         | Inr stxt \<Rightarrow>
        (case joined_components fs schemaMap paramMap params of
           Inl err \<Rightarrow> Inl err
         | Inr qtxt \<Rightarrow>
             Inr (header_lines @
                  ''paths:'' @ [CHR 0x0A] @ ptxt @
                  ''components:'' @ [CHR 0x0A] @
                  ''  schemas:'' @ [CHR 0x0A] @ stxt @
                  ''  parameters:'' @ [CHR 0x0A] @ qtxt))))"

definition writeRootJoinedYAML :: "fnode \<Rightarrow> Config \<Rightarrow> go_error + string" where
  "writeRootJoinedYAML fs cfg =
     (case ensureDir fs (filepath_Dir (RootPath cfg)) of
        Some err \<Rightarrow> Inl err
      | None \<Rightarrow>
     (case listYAMLFiles fs (PathsDir cfg) of
        (paths, Some err) \<Rightarrow> Inl err
      | (paths, None) \<Rightarrow>
     (case listYAMLFiles fs (SchemasDir cfg) of
        (schemas, Some err) \<Rightarrow> Inl err
      | (schemas, None) \<Rightarrow>
     (case listYAMLFiles fs (ParamsDir cfg) of
        (params, Some err) \<Rightarrow> Inl err
      | (params, None) \<Rightarrow>
     (case os_Create fs (RootPath cfg) of
        Some err \<Rightarrow> Inl err
      | None \<Rightarrow>
          emitRootJoinedYAML fs cfg paths schemas params
            (fst (listYAMLFiles fs (SchemasDir cfg)))
            (fst (listYAMLFiles fs (ParamsDir cfg))))))))"

section \<open>The rule engine: rules\<close>

text \<open>
  The parsed content of a fragment, as \<open>yaml.Unmarshal\<close> hands it to the program in a
  \<open>map[string]interface{}\<close>: a value is a mapping whose keys are all strings (again a
  \<open>map[string]interface{}\<close>), a mapping with a key of another kind, a sequence, a scalar
  or null. A Go map is modelled as an association list with distinct keys; its order is
  the order in which \<open>range\<close> happens to visit the keys.
\<close>

datatype yaml =
    YMap "(string \<times> yaml) list"
  | YKeyedMap "(yaml \<times> yaml) list"
  | YSeq "yaml list"
  | YScalar string
  | YNull

type_synonym operation = "(string \<times> yaml) list"

text \<open>A rule's \<open>Validate\<close> function returns an error or \<open>nil\<close>: here the message or
  \<^const>\<open>None\<close>.\<close>

type_synonym validate_fn = "string \<Rightarrow> string \<Rightarrow> operation \<Rightarrow> string option"

definition validMethods :: "string list" where
  "validMethods = [''get'', ''post'', ''put'', ''patch'', ''delete'', ''head'', ''options'']"

definition validateHTTPMethods :: validate_fn where
  "validateHTTPMethods path method operation =
     (if to_lower method \<notin> set validMethods
      then Some (''invalid HTTP method '' @ [CHR 0x27] @ method @ [CHR 0x27] @
                 '', should be one of: GET, POST, PUT, PATCH, DELETE, HEAD, OPTIONS'')
      else None)"

text \<open>\<open>makePlural\<close>: the first matching case of the \<open>switch\<close> wins.\<close>

definition makePlural :: "string \<Rightarrow> string" where
  "makePlural word =
     (if has_suffix word ''y'' then trim_suffix word ''y'' @ ''ies''
      else if has_suffix word ''s'' \<or> has_suffix word ''ch'' \<or> has_suffix word ''sh''
        then word @ ''es''
      else word @ ''s'')"

definition singularWords :: "string list" where
  "singularWords =
     [''account'', ''user'', ''mission'', ''reward'', ''partner'', ''activity'', ''car'', ''member'',
      ''order'', ''product'', ''service'', ''item'', ''category'', ''group'', ''role'', ''permission'',
      ''resource'', ''entity'', ''record'', ''document'', ''file'', ''image'', ''video'', ''comment'']"

text \<open>The regular expression \<open>^v\d+$\<close>: a \<open>v\<close> and then one or more ASCII digits.\<close>

definition is_version_segment :: "string \<Rightarrow> bool" where
  "is_version_segment s =
     (case s of [] \<Rightarrow> False | c # ds \<Rightarrow> c = CHR ''v'' \<and> ds \<noteq> [] \<and> list_all is_digit ds)"

text \<open>A segment in braces, as the rule tests it with \<open>HasPrefix\<close> and \<open>HasSuffix\<close>.\<close>

definition is_param_segment :: "string \<Rightarrow> bool" where
  "is_param_segment s = (has_prefix s ''{'' \<and> has_suffix s ''}'')"

text \<open>The inner loop of \<open>validatePluralCollections\<close> over the singular words.\<close>

fun first_singular :: "string \<Rightarrow> string list \<Rightarrow> string option" where
  "first_singular segment [] = None"
| "first_singular segment (singular # rest) =
     (if to_lower segment = singular then Some singular else first_singular segment rest)"

text \<open>The message of the rule: the segment as it stands in the path, and the plural.\<close>

definition plural_message :: "string \<Rightarrow> string \<Rightarrow> string" where
  "plural_message segment plural =
     ''collection name '' @ [CHR 0x27] @ segment @ [CHR 0x27] @
     '' should be plural: '' @ [CHR 0x27] @ plural @ [CHR 0x27]"

text \<open>The outer loop over the segments of the path.\<close>

fun plural_scan :: "string list \<Rightarrow> string option" where
  "plural_scan [] = None"
| "plural_scan (segment # rest) =
     (if is_param_segment segment then plural_scan rest
      else if is_version_segment segment then plural_scan rest
      else (case first_singular segment singularWords of
              Some singular \<Rightarrow> Some (plural_message segment (makePlural singular))
            | None \<Rightarrow> plural_scan rest))"

definition validatePluralCollections :: validate_fn where
  "validatePluralCollections path method operation =
     plural_scan (split_on CHR ''/'' (trim_slashes path))"

text \<open>
  The regular expression of \<open>validateKebabCase\<close>,
  \<open>^[a-z0-9]+(-[a-z0-9]+)*$|^v\d+$|^\{[^}]+\}$\<close>: groups of lower-case letters and digits
  with single dashes between them, or a version segment, or braces around one or more
  bytes that are no closing brace.
\<close>

definition is_kebab :: "string \<Rightarrow> bool" where
  "is_kebab s = list_all (\<lambda>g. g \<noteq> [] \<and> list_all is_lower_alnum g) (split_on CHR ''-'' s)"

definition is_braced :: "string \<Rightarrow> bool" where
  "is_braced s =
     (case s of
        [] \<Rightarrow> False
      | c # cs \<Rightarrow>
          c = CHR ''{'' \<and> length cs \<ge> 2 \<and> last cs = CHR ''}'' \<and> CHR ''}'' \<notin> set (butlast cs))"

definition kebabRegex :: "string \<Rightarrow> bool" where
  "kebabRegex s = (is_kebab s \<or> is_version_segment s \<or> is_braced s)"

fun kebab_scan :: "string list \<Rightarrow> string option" where
  "kebab_scan [] = None"
| "kebab_scan (segment # rest) =
     (if \<not> kebabRegex segment
      then Some (''path segment '' @ [CHR 0x27] @ segment @ [CHR 0x27] @
                 '' should use kebab-case (lowercase with dashes)'')
      else kebab_scan rest)"

definition validateKebabCase :: validate_fn where
  "validateKebabCase path method operation =
     kebab_scan (split_on CHR ''/'' (trim_slashes path))"

definition validateNoTrailingSlash :: validate_fn where
  "validateNoTrailingSlash path method operation =
     (if length path > 1 \<and> has_suffix path ''/''
      then Some ''path should not have trailing slash''
      else None)"

definition validateOperationId :: validate_fn where
  "validateOperationId path method operation =
     (if map_of operation ''operationId'' = None
      then Some ''operation should have operationId''
      else None)"

definition validateOperationSummary :: validate_fn where
  "validateOperationSummary path method operation =
     (if map_of operation ''summary'' = None
      then Some ''operation should have summary''
      else None)"

definition validateGetResponse200 :: validate_fn where
  "validateGetResponse200 path method operation =
     (if to_lower method \<noteq> ''get'' then None
      else (case map_of operation ''responses'' of
              Some (YMap responses) \<Rightarrow>
                if map_of responses ''200'' = None
                then Some ''GET operation should have 200 response''
                else None
            | _ \<Rightarrow> Some ''GET operation should have responses defined''))"

text \<open>
  The matches of \<open>\{([^}]+)\}\<close> that \<open>FindAllStringSubmatch\<close> finds from left to right: an
  opening brace, the bytes up to the next closing brace if there is at least one, and
  the search goes on after that closing brace.
\<close>

function brace_params :: "string \<Rightarrow> string list" where
  "brace_params [] = []"
| "brace_params (c # cs) =
     (if c = CHR ''{'' then
        (let inner = takeWhile (\<lambda>x. x \<noteq> CHR ''}'') cs;
             after = dropWhile (\<lambda>x. x \<noteq> CHR ''}'') cs
         in if inner \<noteq> [] \<and> after \<noteq> [] then inner # brace_params (tl after)
            else brace_params cs)
      else brace_params cs)"
  by pat_completeness auto
termination
proof (relation "measure length")
  fix c :: char and cs x xa
  assume "xa = dropWhile (\<lambda>x. x \<noteq> CHR ''}'') cs"
  then have "length (tl xa) \<le> length cs"
    using length_dropWhile_le [of "\<lambda>x. x \<noteq> CHR ''}''" cs] by simp
  then show "(tl xa, c # cs) \<in> measure length" by simp
qed simp_all

definition validPatterns :: "string list" where
  "validPatterns =
     [''id'', ''userId'', ''accountId'', ''missionId'', ''partnerId'',
      ''carId'', ''activityId'', ''rewardId'', ''memberId'']"

definition isValidParamName :: "string \<Rightarrow> bool" where
  "isValidParamName name =
     (name \<in> set validPatterns \<or> (has_suffix name ''Id'' \<and> length name > 2))"

fun param_scan :: "string list \<Rightarrow> string option" where
  "param_scan [] = None"
| "param_scan (paramName # rest) =
     (if \<not> isValidParamName paramName
      then Some (''parameter '' @ [CHR 0x27] @ ''{'' @ paramName @ ''}'' @ [CHR 0x27] @
                 '' should follow naming convention (consider using {id} for resource identifiers)'')
      else param_scan rest)"

definition validateResourceIdParam :: validate_fn where
  "validateResourceIdParam path method operation =
     param_scan (brace_params path)"

section \<open>The rule engine: presets and the run\<close>

record ValidationRule =
  rule_Name :: string
  rule_Description :: string
  Validate :: validate_fn

record ValidationPreset =
  preset_Name :: string
  preset_Description :: string
  Rules :: "ValidationRule list"

record ValidationResult =
  Path :: string
  Method :: string
  Rule :: string
  Message :: string
  Severity :: string

record ValidationConfig =
  Preset :: string
  StopOnError :: bool
  Results :: "ValidationResult list"

definition rule_http_methods :: ValidationRule where
  "rule_http_methods =
     \<lparr>rule_Name = ''http-methods-rest'',
      rule_Description = ''Use standard HTTP methods (GET, POST, PUT, PATCH, DELETE)'',
      Validate = validateHTTPMethods\<rparr>"

definition rule_plural :: ValidationRule where
  "rule_plural =
     \<lparr>rule_Name = ''collection-names-plural'',
      rule_Description = ''Collection names should be plural nouns'',
      Validate = validatePluralCollections\<rparr>"

definition rule_kebab :: ValidationRule where
  "rule_kebab =
     \<lparr>rule_Name = ''path-case-kebab'',
      rule_Description = ''Path segments should use kebab-case (lowercase with dashes)'',
      Validate = validateKebabCase\<rparr>"

definition rule_no_trailing_slash :: ValidationRule where
  "rule_no_trailing_slash =
     \<lparr>rule_Name = ''no-trailing-slash'',
      rule_Description = ''Paths should not have trailing slashes'',
      Validate = validateNoTrailingSlash\<rparr>"

definition rule_operation_id :: ValidationRule where
  "rule_operation_id =
     \<lparr>rule_Name = ''operation-id-present'',
      rule_Description = ''All operations should have operationId'',
      Validate = validateOperationId\<rparr>"

definition rule_operation_summary :: ValidationRule where
  "rule_operation_summary =
     \<lparr>rule_Name = ''operation-summary-present'',
      rule_Description = ''All operations should have summary'',
      Validate = validateOperationSummary\<rparr>"

definition rule_response_200 :: ValidationRule where
  "rule_response_200 =
     \<lparr>rule_Name = ''response-200-present'',
      rule_Description = ''GET operations should have 200 response'',
      Validate = validateGetResponse200\<rparr>"

definition rule_resource_id :: ValidationRule where
  "rule_resource_id =
     \<lparr>rule_Name = ''resource-id-param'',
      rule_Description = ''Resource paths should use {id} parameter naming'',
      Validate = validateResourceIdParam\<rparr>"

definition preset_google :: ValidationPreset where
  "preset_google =
     \<lparr>preset_Name = ''Google API Design Guide'',
      preset_Description = ''Validation rules based on Google'' @ [CHR 0x27] @
        ''s API Design Guide best practices'',
      Rules = [rule_http_methods, rule_plural, rule_kebab, rule_no_trailing_slash,
               rule_operation_id, rule_operation_summary, rule_response_200,
               rule_resource_id]\<rparr>"

definition preset_restful :: ValidationPreset where
  "preset_restful =
     \<lparr>preset_Name = ''RESTful API Standards'',
      preset_Description = ''Common RESTful API design standards'',
      Rules = [rule_http_methods, rule_operation_id, rule_plural, rule_no_trailing_slash]\<rparr>"

definition ValidationPresets :: "string \<rightharpoonup> ValidationPreset" where
  "ValidationPresets = map_of [(''google'', preset_google), (''restful'', preset_restful)]"

text \<open>
  What a run does apart from its results, in the order it does it: the lines it prints,
  the directory it lists, the fragments it reads and parses, the rules it evaluates.
\<close>

datatype event =
    PrintedPreset string
  | ListedFiles string
  | ReadFragment string
  | ParsedFragment string
  | Evaluated string string string
  | PrintedViolation ValidationResult
  | PrintedFailed nat
  | PrintedPassed

text \<open>
  The state of a run: the \<open>ValidationConfig\<close> the caller passed by pointer, the variable
  \<open>hasErrors\<close>, and the events so far.
\<close>

record run_state =
  vcfg :: ValidationConfig
  hasErrors :: bool
  events :: "event list"


text \<open>The loop over the rules of the preset, for one method of one fragment.\<close>

fun run_rules ::
  "string \<Rightarrow> string \<Rightarrow> operation \<Rightarrow> ValidationRule list \<Rightarrow> run_state \<Rightarrow> go_error option \<times> run_state"
where
  "run_rules apiPath method operation [] st = (None, st)"
| "run_rules apiPath method operation (rule # rules) st =
     (let st1 = st\<lparr>events := events st @ [Evaluated (rule_Name rule) apiPath method]\<rparr> in
      case Validate rule apiPath method operation of
        None \<Rightarrow> run_rules apiPath method operation rules st1
      | Some msg \<Rightarrow>
          (let result = \<lparr>Path = apiPath, Method = to_upper method, Rule = rule_Name rule,
                         Message = msg, Severity = ''error''\<rparr>;
               st2 = st1\<lparr>vcfg := (vcfg st1)\<lparr>Results := Results (vcfg st1) @ [result]\<rparr>,
                         hasErrors := True,
                         events := events st1 @ [PrintedViolation result]\<rparr>
           in if StopOnError (vcfg st2) then (Some StoppedEarly, st2)
              else run_rules apiPath method operation rules st2))"

text \<open>The loop over the keys of the parsed fragment, in the order \<open>range\<close> visits them.\<close>

fun run_methods ::
  "string \<Rightarrow> ValidationRule list \<Rightarrow> (string \<times> yaml) list \<Rightarrow> run_state \<Rightarrow> go_error option \<times> run_state"
where
  "run_methods apiPath rules [] st = (None, st)"
| "run_methods apiPath rules ((method, operationRaw) # rest) st =
     (case operationRaw of
        YMap operation \<Rightarrow>
          (case run_rules apiPath method operation rules st of
             (Some err, st') \<Rightarrow> (Some err, st')
           | (None, st') \<Rightarrow> run_methods apiPath rules rest st')
      | _ \<Rightarrow> run_methods apiPath rules rest st)"

text \<open>
  The loop over the listed fragments. \<open>yaml.Unmarshal\<close> is the parameter \<open>unmarshal\<close>: the
  error, or the keys and values of the top-level mapping.
\<close>

type_synonym unmarshal_fn = "string \<Rightarrow> go_error + (string \<times> yaml) list"

fun run_files ::
  "fnode \<Rightarrow> unmarshal_fn \<Rightarrow> Config \<Rightarrow> ValidationRule list \<Rightarrow> string list \<Rightarrow> run_state
     \<Rightarrow> go_error option \<times> run_state"
where
  "run_files fs unmarshal cfg rules [] st = (None, st)"
| "run_files fs unmarshal cfg rules (pathFile # rest) st =
     (let apiPath = buildPathKey (PathsDir cfg) pathFile in
      if apiPath = [] then run_files fs unmarshal cfg rules rest st
      else
        (let st1 = st\<lparr>events := events st @ [ReadFragment pathFile]\<rparr> in
         case readText fs pathFile of
           Inl err \<Rightarrow> (Some (ReadFailed pathFile err), st1)
         | Inr content \<Rightarrow>
             (let st2 = st1\<lparr>events := events st1 @ [ParsedFragment pathFile]\<rparr> in
              case unmarshal content of
                Inl err \<Rightarrow> (Some (ParseFailed pathFile err), st2)
              | Inr pathSpec \<Rightarrow>
                  (case run_methods apiPath rules pathSpec st2 of
                     (Some err, st3) \<Rightarrow> (Some err, st3)
                   | (None, st3) \<Rightarrow> run_files fs unmarshal cfg rules rest st3))))"

text \<open>\<open>validatePaths\<close>: the error it returns and the state it leaves.\<close>

definition validatePaths ::
  "fnode \<Rightarrow> unmarshal_fn \<Rightarrow> Config \<Rightarrow> ValidationConfig \<Rightarrow> go_error option \<times> run_state"
where
  "validatePaths fs unmarshal cfg validationCfg =
     (let st0 = \<lparr>vcfg = validationCfg, hasErrors = False, events = []\<rparr> in
      case ValidationPresets (Preset validationCfg) of
        None \<Rightarrow> (Some (UnknownPreset (Preset validationCfg)), st0)
      | Some preset \<Rightarrow>
          (let st1 = st0\<lparr>events := [PrintedPreset (preset_Name preset),
                                     ListedFiles (PathsDir cfg)]\<rparr> in
           case listYAMLFiles fs (PathsDir cfg) of
             (paths, Some err) \<Rightarrow> (Some err, st1)
           | (paths, None) \<Rightarrow>
               (case run_files fs unmarshal cfg (Rules preset) paths st1 of
                  (Some err, st2) \<Rightarrow> (Some err, st2)
                | (None, st2) \<Rightarrow>
                    if hasErrors st2
                    then (Some ValidationFailed,
                          st2\<lparr>events := events st2 @ [PrintedFailed (length (Results (vcfg st2)))]\<rparr>)
                    else (None, st2\<lparr>events := events st2 @ [PrintedPassed]\<rparr>))))"





text \<open>
  An example: two path fragments, each with a \<open>get\<close> operation that has no
  \<open>operationId\<close>; \<open>example_unmarshal\<close> is what \<open>yaml.Unmarshal\<close> makes of their text.
\<close>

definition example_fs :: fnode where
  "example_fs =
     Directory [(''api'', Directory [(''paths'', Directory [(''v1'', Directory
       [(''users.yaml'', RegularFile ''get: {}''),
        (''widgets.yaml'', RegularFile ''get: {}'')])])])]"

definition example_cfg :: Config where
  "example_cfg =
     \<lparr>RootPath = ''/api/root.yaml'', PathsDir = ''/api/paths'',
      SchemasDir = ''/api/components/schemas'', ParamsDir = ''/api/components/parameters''\<rparr>"

definition example_unmarshal :: unmarshal_fn where
  "example_unmarshal content =
     (if content = ''get: {}'' then Inr [(''get'', YMap [])] else Inl (OSError ''yaml''))"


text \<open>
  The vocabulary of the specification for what the walk finds. Below a directory, the
  file at the relative path \<open>rs\<close> is listed when it is a regular file, no directory on
  the way to it has a name that starts with a dot, and its name ends in \<open>.yaml\<close> in
  any case of letters. \<open>listed_at\<close> is the same for an entry \<open>name\<close> of a directory and
  what lies below it.
\<close>

definition listed_at :: "string \<Rightarrow> fnode \<Rightarrow> string list \<Rightarrow> bool" where
  "listed_at name d rs =
     ((case stat_from d rs of Some n \<Rightarrow> isRegular n | None \<Rightarrow> False) \<and>
      list_all (\<lambda>x. \<not> dotted x) (butlast (name # rs)) \<and>
      has_suffix (to_lower (last (name # rs))) ''.yaml'')"

definition listed_below :: "fnode \<Rightarrow> string list \<Rightarrow> bool" where
  "listed_below st rs =
     (rs \<noteq> [] \<and>
      (case stat_from st rs of Some n \<Rightarrow> isRegular n | None \<Rightarrow> False) \<and>
      list_all (\<lambda>x. \<not> dotted x) (butlast rs) \<and>
      has_suffix (to_lower (last rs)) ''.yaml'')"

text \<open>
  An example of a schema directory: a dotted directory, a dotted file, an upper-case
  extension, a nested directory, a text file and a \<open>.yml\<close> file.
\<close>

definition schemas_entries :: "(string \<times> fnode) list" where
  "schemas_entries =
       [(''.git'', Directory [(''config.yaml'', RegularFile [])]),
        (''.hidden.yaml'', RegularFile []),
        (''Pet.YAML'', RegularFile []),
        (''nested'', Directory [(''foo-bar.yaml'', RegularFile [])]),
        (''notes.txt'', RegularFile []),
        (''user.yaml'', RegularFile []),
        (''widget.yml'', RegularFile [])]"

definition schemas_fs :: fnode where
  "schemas_fs =
     Directory [(''api'', Directory [(''components'', Directory
       [(''schemas'', Directory schemas_entries)])])]"




text \<open>
  An example for the inlined root: two schema files whose names differ in the case of
  one letter, a path fragment that refers to one of them by its file, and the two
  orders in which the two schema files can be listed.
\<close>

definition joined_fs :: fnode where
  "joined_fs =
     Directory [(''api'', Directory
       [(''components'', Directory [(''schemas'', Directory
          [(''fooBar.yaml'', RegularFile ''type: object''),
           (''foobar.yaml'', RegularFile ''type: string''),
           (''user.yaml'', RegularFile ''type: object'')])]),
        (''paths'', Directory
          [(''pets.yaml'', RegularFile ''$ref: ../components/schemas/foobar.yaml'')])])]"





section \<open>Splitting and joining\<close>

lemma split_on_nonempty: "split_on c s \<noteq> []"
  by (induction s) (auto split: list.splits)

lemma split_on_append: "split_on c (a @ c # b) = split_on c a @ split_on c b"
proof (induction a)
  case Nil
  show ?case by simp
next
  case (Cons x a)
  show ?case
  proof (cases "x = c")
    case True
    with Cons show ?thesis by simp
  next
    case False
    obtain w ws where w: "split_on c a = w # ws"
      using split_on_nonempty [of c a] by (cases "split_on c a") auto
    with False Cons show ?thesis by simp
  qed
qed

lemma split_on_no_sep: "c \<notin> set s \<Longrightarrow> split_on c s = [s]"
  by (induction s) auto

lemma split_on_join:
  "xs \<noteq> [] \<Longrightarrow> list_all (\<lambda>x. c \<notin> set x) xs \<Longrightarrow> split_on c (join_with [c] xs) = xs"
proof (induction "[c]" xs rule: join_with.induct)
  case 1
  then show ?case by simp
next
  case (2 x)
  then show ?case by (simp add: split_on_no_sep)
next
  case (3 x y ys)
  then show ?case by (simp add: split_on_append split_on_no_sep)
qed

lemma join_with_append:
  "xs \<noteq> [] \<Longrightarrow> ys \<noteq> [] \<Longrightarrow>
     join_with sep (xs @ ys) = join_with sep xs @ sep @ join_with sep ys"
proof (induction sep xs rule: join_with.induct)
  case (1 sep)
  then show ?case by simp
next
  case (2 sep x)
  then show ?case by (cases ys) auto
next
  case (3 sep x y ys)
  then show ?case by simp
qed

lemma split_join_slash:
  "list_all normal_seg ds \<Longrightarrow> ds \<noteq> [] \<Longrightarrow> split_on CHR ''/'' (join_with ''/'' ds) = ds"
  using split_on_join [of ds "CHR ''/''"]
  by (simp add: list_all_iff normal_seg_def)

section \<open>Clean paths and relative paths\<close>

lemma clean_step_normal: "normal_seg s \<Longrightarrow> clean_step r st s = st @ [s]"
  by (simp add: clean_step_def normal_seg_def)

lemma foldl_clean_normal:
  "list_all normal_seg xs \<Longrightarrow> foldl (clean_step r) st xs = st @ xs"
  by (induction xs arbitrary: st) (simp_all add: clean_step_normal)

lemma clean_abs:
  assumes "list_all normal_seg ds" "ds \<noteq> []"
  shows "filepath_Clean (''/'' @ join_with ''/'' ds) = ''/'' @ join_with ''/'' ds"
proof -
  have f: "foldl (clean_step True) (clean_step True [] []) ds = ds"
    using foldl_clean_normal [OF assms(1), of True "[]"] by (simp add: clean_step_def)
  show ?thesis
    using assms
    by (simp add: filepath_Clean_def is_rooted_def has_prefix_def split_join_slash f)
qed

lemma path_elems_abs:
  assumes "list_all normal_seg ds" "ds \<noteq> []"
  shows "path_elems (''/'' @ join_with ''/'' ds) = [] # ds"
proof -
  have "last ds \<noteq> []" using assms by (simp add: list_all_iff normal_seg_def)
  then show ?thesis using assms
    by (simp add: path_elems_def split_join_slash)
qed


lemma join_slash_inj:
  "join_with ''/'' xs = join_with ''/'' ys \<Longrightarrow> list_all normal_seg xs \<Longrightarrow>
     list_all normal_seg ys \<Longrightarrow> xs \<noteq> [] \<Longrightarrow> ys \<noteq> [] \<Longrightarrow> xs = ys"
  by (metis split_join_slash)


section \<open>The path key\<close>



text \<open>
  Only the suffix \<open>.yaml\<close> in lower case is stripped: the fragment store lists a file
  named \<open>Foo.YAML\<close>, and its key keeps the extension.
\<close>

lemma upper_case_extension_kept:
  "buildPathKey ''/api/paths'' ''/api/paths/v1/Foo.YAML'' = ''/v1/Foo.YAML''"
  by code_simp


section \<open>The rules: what they accept\<close>










section \<open>The reference rewriter\<close>

lemma dropWhile_keep: "ys \<noteq> [] \<Longrightarrow> \<not> P (hd ys) \<Longrightarrow> dropWhile P (xs @ ys) = dropWhile P xs @ ys"
  by (induction xs) (auto simp: neq_Nil_conv)

lemma trim_space_core:
  assumes "list_all is_space sp" "p \<noteq> []" "\<not> is_space (hd p)" "\<not> is_space (last p)"
  shows "trim_space (sp @ p @ t) = p @ rev (dropWhile is_space (rev t))"
proof -
  have "dropWhile is_space (sp @ p @ t) = dropWhile is_space (p @ t)"
    using assms(1) by (intro dropWhile_append2) (simp add: list_all_iff)
  also have "\<dots> = p @ t" using assms(2,3) by (cases p) simp_all
  finally have a: "dropWhile is_space (sp @ p @ t) = p @ t" .
  have "rev p \<noteq> []" "\<not> is_space (hd (rev p))" using assms by (simp_all add: hd_rev)
  then have b: "dropWhile is_space (rev t @ rev p) = dropWhile is_space (rev t) @ rev p"
    by (rule dropWhile_keep)
  show ?thesis by (simp add: trim_space_def a b)
qed


lemma index_of_first:
  "CHR ''$'' \<notin> set left \<Longrightarrow> index_of (left @ ''$ref:'' @ r) ''$ref:'' = Some (length left)"
proof (induction left)
  case Nil
  show ?case by (cases r) (simp_all add: has_prefix_def)
next
  case (Cons c left)
  then have "\<not> has_prefix ((c # left) @ ''$ref:'' @ r) ''$ref:''"
    by (auto simp: has_prefix_def)
  with Cons show ?case by simp
qed



lemma rewriteLine_canonical:
  assumes l: "CHR ''$'' \<notin> set left"
  shows "rewriteLine sm pm (left @ ''$ref:'' @ replicate k CHR '' '' @ ''#/components/'' @ t)
         = left @ ''$ref:'' @ replicate k CHR '' '' @ ''#/components/'' @ t"
proof -
  let ?ln = "left @ ''$ref:'' @ replicate k CHR '' '' @ ''#/components/'' @ t"
  let ?t = "rev (dropWhile is_space (rev t))"
  have idx: "index_of ?ln ''$ref:'' = Some (length left)" by (rule index_of_first [OF l])
  have sp: "list_all is_space (replicate k CHR '' '')" by (simp add: list_all_iff is_space_def)
  have rest: "trim_space (replicate k CHR '' '' @ ''#/components/'' @ t) = ''#/components/'' @ ?t"
    using trim_space_core [OF sp, of "''#/components/''" t] by (simp add: is_space_def)
  have tr: "trim_space (''#/components/'' @ ?t) = ''#/components/'' @ ?t"
    using trim_space_core [of "[]" "''#/components/''" ?t] 
    by (simp add: is_space_def)
  have val: "stripQuotes (''#/components/'' @ ?t) = ''#/components/'' @ ?t"
    unfolding stripQuotes_def Let_def tr by simp
  have c: "has_prefix (''#/components/'' @ ?t) ''#/components/''"
    by (simp add: has_prefix_def)
  have dr: "drop (length left + length ''$ref:'') ?ln = replicate k CHR '' '' @ ''#/components/'' @ t"
    by simp
  show ?thesis
    unfolding rewriteLine_def idx option.case Let_def dr rest val
    using c by simp
qed


lemma rewriteLine_quoted_canonical:
  assumes l: "CHR ''$'' \<notin> set left" and q: "q = CHR 0x22 \<or> q = CHR 0x27"
  shows "rewriteLine sm pm (left @ ''$ref:'' @ replicate k CHR '' '' @ [q] @ ''#/components/'' @ t @ [q])
         = left @ ''$ref:'' @ replicate k CHR '' '' @ [q] @ ''#/components/'' @ t @ [q]"
proof -
  let ?v = "[q] @ ''#/components/'' @ t @ [q]"
  let ?ln = "left @ ''$ref:'' @ replicate k CHR '' '' @ ?v"
  have idx: "index_of ?ln ''$ref:'' = Some (length left)" by (rule index_of_first [OF l])
  have sp: "list_all is_space (replicate k CHR '' '')" by (simp add: list_all_iff is_space_def)
  have qs: "\<not> is_space q" using q by (auto simp: is_space_def)
  have rest: "trim_space (replicate k CHR '' '' @ ?v) = ?v"
    using trim_space_core [OF sp, of ?v "[]"] qs by simp
  have tr: "trim_space ?v = ?v"
    using trim_space_core [of "[]" ?v "[]"] qs by simp
  have val: "stripQuotes ?v = ''#/components/'' @ t"
    unfolding stripQuotes_def Let_def tr using q by auto
  have c: "has_prefix (''#/components/'' @ t) ''#/components/''"
    by (simp add: has_prefix_def)
  have dr: "drop (length left + length ''$ref:'') ?ln = replicate k CHR '' '' @ ?v"
    by simp
  have ne: "?v \<noteq> []" by simp
  show ?thesis
    unfolding rewriteLine_def idx option.case Let_def dr rest val
    using c ne by simp
qed

lemma rewriteRefs_lines:
  assumes "ls \<noteq> []" "list_all (\<lambda>l. CHR 0x0A \<notin> set l) ls"
  shows "rewriteRefs (join_with [CHR 0x0A] ls) sm pm = join_with [CHR 0x0A] (map (rewriteLine sm pm) ls)"
  unfolding rewriteRefs_def using split_on_join [OF assms] by simp

lemma index_of_decomp:
  "index_of s sub = Some i \<Longrightarrow> s = take i s @ sub @ drop (i + length sub) s \<and> i \<le> length s"
proof (induction s arbitrary: i)
  case Nil
  then show ?case by (simp split: if_splits)
next
  case (Cons c cs)
  show ?case
  proof (cases "has_prefix (c # cs) sub")
    case True
    with Cons.prems have "i = 0" by simp
    moreover from True have "c # cs = sub @ drop (length sub) (c # cs)"
      unfolding has_prefix_def by (metis append_take_drop_id)
    ultimately show ?thesis by simp
  next
    case False
    with Cons.prems obtain j where j: "index_of cs sub = Some j" "i = Suc j" by auto
    from Cons.IH [OF j(1)] j(2) show ?thesis by simp
  qed
qed

lemma index_of_stable:
  "index_of (a @ sub @ r) sub = Some (length a) \<Longrightarrow> index_of (a @ sub @ r') sub = Some (length a)"
proof (induction a)
  case Nil
  have hp: "has_prefix (sub @ r') sub" by (simp add: has_prefix_def)
  show ?case
  proof (cases "sub @ r'")
    case Nil
    then show ?thesis by simp
  next
    case (Cons x xs)
    with hp have "has_prefix (x # xs) sub" by simp
    with Cons show ?thesis by simp
  qed
next
  case (Cons c a)
  have np: "\<not> has_prefix ((c # a) @ sub @ r) sub"
  proof
    assume "has_prefix ((c # a) @ sub @ r) sub"
    then have "index_of ((c # a) @ sub @ r) sub = Some 0" by simp
    with Cons.prems show False by simp
  qed
  then have i: "index_of (a @ sub @ r) sub = Some (length a)" using Cons.prems by auto
  have "take (length sub) ((c # a) @ sub @ r') = take (length sub) ((c # a) @ sub @ r)"
    by (simp add: take_Cons')
  with np have "\<not> has_prefix ((c # a) @ sub @ r') sub" by (simp add: has_prefix_def)
  with Cons.IH [OF i] show ?case by simp
qed

lemma rewritten_fixed:
  assumes idx: "index_of ln ''$ref:'' = Some idx"
  shows "rewriteLine sm pm (take idx ln @ ''$ref: #/components/'' @ t) = take idx ln @ ''$ref: #/components/'' @ t"
proof -
  let ?left = "take idx ln"
  from index_of_decomp [OF idx]
  have d: "ln = ?left @ ''$ref:'' @ drop (idx + length ''$ref:'') ln" and le: "idx \<le> length ln" by blast+
  have len: "length ?left = idx" using le by simp
  have "index_of (?left @ ''$ref:'' @ drop (idx + length ''$ref:'') ln) ''$ref:'' = Some (length ?left)"
    using idx d len by simp
  from index_of_stable [OF this, of "'' #/components/'' @ t"]
  have i2: "index_of (?left @ ''$ref: #/components/'' @ t) ''$ref:'' = Some idx" using len by simp
  let ?t = "rev (dropWhile is_space (rev t))"
  have sp: "list_all is_space '' ''" by (simp add: is_space_def)
  have rest: "trim_space ('' '' @ ''#/components/'' @ t) = ''#/components/'' @ ?t"
    using trim_space_core [OF sp, of "''#/components/''" t] by (simp add: is_space_def)
  have tr: "trim_space (''#/components/'' @ ?t) = ''#/components/'' @ ?t"
    using trim_space_core [of "[]" "''#/components/''" ?t]
    by (simp add: is_space_def)
  have val: "stripQuotes (''#/components/'' @ ?t) = ''#/components/'' @ ?t"
    unfolding stripQuotes_def Let_def tr by simp
  have c: "has_prefix (''#/components/'' @ ?t) ''#/components/''"
    by (simp add: has_prefix_def)
  have dr: "drop (idx + length ''$ref:'') (?left @ ''$ref: #/components/'' @ t) = '' '' @ ''#/components/'' @ t"
    using len by simp
  show ?thesis
    unfolding rewriteLine_def i2 option.case Let_def dr rest val
    using c by simp
qed

lemma rewriteLine_idem: "rewriteLine sm pm (rewriteLine sm pm ln) = rewriteLine sm pm ln"
proof (cases "index_of ln ''$ref:''")
  case None
  then show ?thesis by (simp add: rewriteLine_def)
next
  case (Some idx)
  have "rewriteLine sm pm ln = ln \<or> (\<exists>t. rewriteLine sm pm ln = take idx ln @ ''$ref: #/components/'' @ t)"
    unfolding rewriteLine_def Some option.case Let_def
    by (auto split: option.splits)
  then show ?thesis using rewritten_fixed [OF Some] by auto
qed




text \<open>
  Claim C6. A line that has, after its first \<open>$ref:\<close> and any number of spaces, a value
  that begins with \<open>#/components/\<close>, bare or in quotes, is left as it is. Rewriting is
  idempotent on every line: what the rewriter returns for a line, it returns unchanged
  when it is applied again.
\<close>

theorem canonical_refs_unchanged:
  assumes "CHR ''$'' \<notin> set left" and "q = CHR 0x22 \<or> q = CHR 0x27"
      and "list_all (\<lambda>l. CHR 0x0A \<notin> set l) (before @ [left, t] @ after)"
  shows "rewriteRefs (join_with [CHR 0x0A]
           (before @ [left @ ''$ref:'' @ replicate k CHR '' '' @ ''#/components/'' @ t] @ after)) sm pm
         = join_with [CHR 0x0A]
             (map (rewriteLine sm pm) before @
              [left @ ''$ref:'' @ replicate k CHR '' '' @ ''#/components/'' @ t] @
              map (rewriteLine sm pm) after)
       \<and> rewriteRefs (join_with [CHR 0x0A]
           (before @ [left @ ''$ref:'' @ replicate k CHR '' '' @ [q] @ ''#/components/'' @ t @ [q]]
              @ after)) sm pm
         = join_with [CHR 0x0A]
             (map (rewriteLine sm pm) before @
              [left @ ''$ref:'' @ replicate k CHR '' '' @ [q] @ ''#/components/'' @ t @ [q]] @
              map (rewriteLine sm pm) after)
       \<and> rewriteLine sm pm (rewriteLine sm pm ln) = rewriteLine sm pm ln"
proof -
  let ?c = "left @ ''$ref:'' @ replicate k CHR '' '' @ ''#/components/'' @ t"
  let ?d = "left @ ''$ref:'' @ replicate k CHR '' '' @ [q] @ ''#/components/'' @ t @ [q]"
  have qn: "q \<noteq> CHR 0x0A" using assms(2) by auto
  have nl: "list_all (\<lambda>l. CHR 0x0A \<notin> set l) (before @ [?c] @ after)"
    "list_all (\<lambda>l. CHR 0x0A \<notin> set l) (before @ [?d] @ after)"
    using assms(3) qn by (auto simp: list_all_iff)
  have a: "rewriteRefs (join_with [CHR 0x0A] (before @ [?c] @ after)) sm pm
           = join_with [CHR 0x0A] (map (rewriteLine sm pm) (before @ [?c] @ after))"
    by (rule rewriteRefs_lines [OF _ nl(1)]) simp
  have b: "rewriteRefs (join_with [CHR 0x0A] (before @ [?d] @ after)) sm pm
           = join_with [CHR 0x0A] (map (rewriteLine sm pm) (before @ [?d] @ after))"
    by (rule rewriteRefs_lines [OF _ nl(2)]) simp
  have m1: "map (rewriteLine sm pm) (before @ [?c] @ after)
            = map (rewriteLine sm pm) before @ [?c] @ map (rewriteLine sm pm) after"
    by (simp only: map_append list.map rewriteLine_canonical [OF assms(1)])
  have m2: "map (rewriteLine sm pm) (before @ [?d] @ after)
            = map (rewriteLine sm pm) before @ [?d] @ map (rewriteLine sm pm) after"
    by (simp only: map_append list.map rewriteLine_quoted_canonical [OF assms(1,2)])
  show ?thesis
    unfolding a b m1 m2 using rewriteLine_idem [of sm pm ln] by (intro conjI; simp only:)
qed

theorem canonical_refs_unchanged_witness:
  "rewriteRefs ''    $ref: #/components/schemas/Foo'' Map.empty Map.empty
     = ''    $ref: #/components/schemas/Foo''
   \<and> rewriteRefs (''    $ref: '' @ [CHR 0x22] @ ''#/components/schemas/Foo'' @ [CHR 0x22])
        Map.empty Map.empty
     = ''    $ref: '' @ [CHR 0x22] @ ''#/components/schemas/Foo'' @ [CHR 0x22]"
proof -
  have l: "CHR ''$'' \<notin> set ''    ''" by simp
  have q: "CHR 0x22 = CHR 0x22 \<or> CHR 0x22 = CHR 0x27" by simp
  have n: "list_all (\<lambda>l. CHR 0x0A \<notin> set l) ([] @ [''    '', ''schemas/Foo''] @ [])" by simp
  from canonical_refs_unchanged [OF l q n, of 1 Map.empty Map.empty]
  show ?thesis by simp
qed


section \<open>The run of the rule engine\<close>















text \<open>
  Claim C8. A preset name that is not in the table of presets, which has the two names
  \<open>google\<close> and \<open>restful\<close>, ends the run with the error \<open>unknown validation preset\<close>:
  whatever the file system holds, no line is printed, no directory is listed, no
  fragment is read or parsed, no rule is evaluated and no result is recorded.
\<close>

theorem unknown_preset_fails_first:
  assumes "ValidationPresets (Preset validationCfg) = None"
  shows "validatePaths fs unmarshal cfg validationCfg
         = (Some (UnknownPreset (Preset validationCfg)),
            \<lparr>vcfg = validationCfg, hasErrors = False, events = []\<rparr>)
       \<and> dom ValidationPresets = {''google'', ''restful''}"
  using assms by (auto simp: validatePaths_def ValidationPresets_def)

theorem unknown_preset_witness:
  "ValidationPresets ''strict'' = None
   \<and> validatePaths example_fs example_unmarshal example_cfg
        \<lparr>Preset = ''strict'', StopOnError = False, Results = []\<rparr>
      = (Some (UnknownPreset ''strict''),
         \<lparr>vcfg = \<lparr>Preset = ''strict'', StopOnError = False, Results = []\<rparr>,
          hasErrors = False, events = []\<rparr>)"
proof -
  have n: "ValidationPresets (Preset \<lparr>Preset = ''strict'', StopOnError = False, Results = []\<rparr>)
           = None"
    by (simp add: ValidationPresets_def)
  from unknown_preset_fails_first [OF n, of example_fs example_unmarshal example_cfg] n
  show ?thesis by simp
qed


section \<open>The fragment store: what the walk lists\<close>

lemma join_abs:
  assumes "list_all normal_seg ps" "ps \<noteq> []" "normal_seg n"
  shows "filepath_Join (''/'' @ join_with ''/'' ps) n = ''/'' @ join_with ''/'' (ps @ [n])"
proof -
  have "join_with ''/'' [''/'' @ join_with ''/'' ps, n] = ''/'' @ join_with ''/'' (ps @ [n])"
    using join_with_append [of ps "[n]" "''/''"] assms by simp
  moreover have "filepath_Clean (''/'' @ join_with ''/'' (ps @ [n])) = ''/'' @ join_with ''/'' (ps @ [n])"
    using clean_abs [of "ps @ [n]"] assms by simp
  moreover have "n \<noteq> []" using assms by (simp add: normal_seg_def)
  ultimately show ?thesis by (simp add: filepath_Join_def)
qed

lemma listed_below_Nil [simp]: "\<not> listed_below (Directory []) rs"
  by (cases rs) (simp_all add: listed_below_def)

lemma listed_below_Cons:
  assumes "n1 \<notin> fst ` set rest"
  shows "listed_below (Directory ((n1, d1) # rest)) rs =
     ((\<exists>rs'. rs = n1 # rs' \<and> listed_at n1 d1 rs') \<or> listed_below (Directory rest) rs)"
proof (cases rs)
  case Nil
  then show ?thesis by (simp add: listed_below_def)
next
  case (Cons r rs')
  show ?thesis
  proof (cases "r = n1")
    case True
    have "map_of rest n1 = None" using assms by (simp add: map_of_eq_None_iff)
    then show ?thesis
      using True Cons by (auto simp: listed_below_def listed_at_def)
  next
    case False
    then show ?thesis using Cons by (auto simp: listed_below_def listed_at_def)
  qed
qed

lemma listed_at_file:
  "listed_at name (RegularFile c) rs = (rs = [] \<and> has_suffix (to_lower name) ''.yaml'')"
  by (cases rs) (auto simp: listed_at_def isRegular_def)

lemma listed_at_special:
  "\<not> listed_at name Special rs"
  by (cases rs) (auto simp: listed_at_def isRegular_def)

lemma listed_at_dir:
  "listed_at name (Directory es) rs = (\<not> dotted name \<and> listed_below (Directory es) rs)"
  by (cases rs) (auto simp: listed_at_def listed_below_def isRegular_def)

lemma walk_lists:
  fixes ds :: "string list"
  assumes ds: "list_all normal_seg ds" "ds \<noteq> []"
  shows "wf_tree d \<Longrightarrow> list_all normal_seg qs \<Longrightarrow> qs \<noteq> [] \<Longrightarrow>
           root = ''/'' @ join_with ''/'' ds \<Longrightarrow>
           path = ''/'' @ join_with ''/'' (ds @ qs) \<Longrightarrow>
         \<exists>found. walkDir root path name d files = (None, files @ found) \<and>
           (\<forall>p. p \<in> set found \<longleftrightarrow>
              (\<exists>rs. p = ''/'' @ join_with ''/'' (ds @ qs @ rs) \<and> listed_at name d rs))"
    and "wf_tree (Directory es) \<Longrightarrow> list_all normal_seg qs \<Longrightarrow>
           root = ''/'' @ join_with ''/'' ds \<Longrightarrow>
           path = ''/'' @ join_with ''/'' (ds @ qs) \<Longrightarrow>
         \<exists>found. walkEntries root path es files = (None, files @ found) \<and>
           (\<forall>p. p \<in> set found \<longleftrightarrow>
              (\<exists>rs. p = ''/'' @ join_with ''/'' (ds @ qs @ rs) \<and> listed_below (Directory es) rs))"
proof (induction root path name d files and root path es files
       arbitrary: qs and qs rule: walkDir_walkEntries.induct)
  case (1 root path name d files)
  have ne: "path \<noteq> root"
  proof
    assume "path = root"
    then have "join_with ''/'' (ds @ qs) = join_with ''/'' ds"
      using 1 by simp
    then have "ds @ qs = ds" using join_slash_inj [of "ds @ qs" ds] ds 1 by simp
    then show False using 1 by simp
  qed
  show ?case
  proof (cases d)
    case (RegularFile c)
    show ?thesis
    proof (cases "has_suffix (to_lower name) ''.yaml''")
      case True
      then have "walkDir root path name d files = (None, files @ [path])"
        using RegularFile by (simp add: visit_def isDir_def isRegular_def)
      then show ?thesis using True RegularFile 1
        by (intro exI [of _ "[path]"]) (auto simp: listed_at_file)
    next
      case False
      then have "walkDir root path name d files = (None, files @ [])"
        using RegularFile by (simp add: visit_def isDir_def isRegular_def)
      then show ?thesis using False RegularFile
        by (intro exI [of _ "[]"]) (auto simp: listed_at_file)
    qed
  next
    case (Directory es)
    show ?thesis
    proof (cases "dotted name")
      case True
      then have "walkDir root path name d files = (None, files @ [])"
        using Directory ne by (simp add: visit_def isDir_def isRegular_def dotted_def)
      then show ?thesis using True Directory
        by (intro exI [of _ "[]"]) (auto simp: listed_at_dir)
    next
      case False
      then have v: "visit root path name d None files = (Continue, files)"
        using Directory by (simp add: visit_def isDir_def isRegular_def dotted_def)
      then have w: "walkDir root path name d files = walkEntries root path es files"
        using Directory by simp
      from "1.IH" [OF v [symmetric] refl Directory] "1.prems" Directory
      obtain found where "walkEntries root path es files = (None, files @ found)"
        "\<forall>p. p \<in> set found \<longleftrightarrow>
              (\<exists>rs. p = ''/'' @ join_with ''/'' (ds @ qs @ rs) \<and> listed_below (Directory es) rs)"
        by blast
      then show ?thesis using w False Directory
        by (intro exI [of _ found]) (auto simp: listed_at_dir)
    qed
  next
    case UnreadableDir
    with 1 show ?thesis by simp
  next
    case Special
    then have "walkDir root path name d files = (None, files @ [])"
      by (simp add: visit_def isDir_def isRegular_def)
    then show ?thesis using Special
      by (intro exI [of _ "[]"]) (auto simp: listed_at_special)
  qed
next
  case (2 root path files)
  show ?case by (intro exI [of _ "[]"]) simp
next
  case (3 root path name1 d1 rest files)
  have wf1: "wf_tree d1" "normal_seg name1" "wf_tree (Directory rest)" "name1 \<notin> fst ` set rest"
    using "3.prems"(1) by auto
  have q1: "list_all normal_seg (qs @ [name1])" "qs @ [name1] \<noteq> []"
    using "3.prems"(2) wf1 by simp_all
  have p1: "filepath_Join path name1 = ''/'' @ join_with ''/'' (ds @ (qs @ [name1]))"
    using join_abs [of "ds @ qs" name1] ds "3.prems" wf1 by simp
  from "3.IH"(1) [OF wf1(1) q1 "3.prems"(3) p1]
  obtain f1 where f1: "walkDir root (filepath_Join path name1) name1 d1 files = (None, files @ f1)"
    "\<forall>p. p \<in> set f1 \<longleftrightarrow>
        (\<exists>rs. p = ''/'' @ join_with ''/'' (ds @ (qs @ [name1]) @ rs) \<and> listed_at name1 d1 rs)"
    by blast
  from "3.IH"(2) [OF f1(1) [symmetric] refl wf1(3) "3.prems"(2,3,4)]
  obtain f2 where f2: "walkEntries root path rest (files @ f1) = (None, (files @ f1) @ f2)"
    "\<forall>p. p \<in> set f2 \<longleftrightarrow>
        (\<exists>rs. p = ''/'' @ join_with ''/'' (ds @ qs @ rs) \<and> listed_below (Directory rest) rs)"
    by blast
  have "walkEntries root path ((name1, d1) # rest) files = (None, files @ (f1 @ f2))"
    using f1(1) f2(1) by simp
  moreover have "\<forall>p. p \<in> set (f1 @ f2) \<longleftrightarrow>
        (\<exists>rs. p = ''/'' @ join_with ''/'' (ds @ qs @ rs) \<and>
              listed_below (Directory ((name1, d1) # rest)) rs)"
    unfolding listed_below_Cons [OF wf1(4)] using f1(2) f2(2) by auto
  ultimately show ?case by blast
qed

lemma os_Stat_abs:
  assumes "list_all normal_seg ds" "ds \<noteq> []"
  shows "os_Stat fs (''/'' @ join_with ''/'' ds) = stat_from fs ds"
proof -
  have "filter (\<lambda>e. e \<noteq> []) ds = ds"
    using assms(1) by (induction ds) (auto simp: normal_seg_def)
  then show ?thesis
    unfolding os_Stat_def clean_abs [OF assms] path_elems_abs [OF assms] by simp
qed

lemma list_of_directory:
  assumes ds: "list_all normal_seg ds" "ds \<noteq> []"
      and st: "stat_from fs ds = Some (Directory es)" and wf: "wf_tree (Directory es)"
  shows "\<exists>files. listYAMLFiles fs (''/'' @ join_with ''/'' ds) = (files, None) \<and>
           (\<forall>p. p \<in> set files \<longleftrightarrow>
              (\<exists>rs. p = ''/'' @ join_with ''/'' (ds @ rs) \<and> listed_below (Directory es) rs))"
proof -
  let ?root = "''/'' @ join_with ''/'' ds"
  have v: "visit ?root ?root (filepath_Base ?root) (Directory es) None [] = (Continue, [])"
    by (simp add: visit_def isRegular_def)
  from walk_lists(2) [OF ds wf, of "[]" ?root ?root "[]"]
  obtain found where f: "walkEntries ?root ?root es [] = (None, [] @ found)"
    "\<forall>p. p \<in> set found \<longleftrightarrow>
        (\<exists>rs. p = ''/'' @ join_with ''/'' (ds @ [] @ rs) \<and> listed_below (Directory es) rs)"
    by auto
  have "walkDir ?root ?root (filepath_Base ?root) (Directory es) [] = (None, found)"
    using v f(1) by simp
  then have "listYAMLFiles fs ?root = (found, None)"
    unfolding listYAMLFiles_def os_Stat_abs [OF ds] st by (simp add: isDir_def)
  with f(2) show ?thesis by simp
qed

lemma list_of_nothing:
  assumes ds: "list_all normal_seg ds" "ds \<noteq> []"
      and "case stat_from fs ds of None \<Rightarrow> True | Some n \<Rightarrow> \<not> isDir n"
  shows "listYAMLFiles fs (''/'' @ join_with ''/'' ds) = ([], None)"
  using assms(3) unfolding listYAMLFiles_def os_Stat_abs [OF ds]
  by (auto split: option.splits)

lemma schemas_listing:
  "listYAMLFiles schemas_fs ''/api/components/schemas'' =
     ([''/api/components/schemas/.hidden.yaml'', ''/api/components/schemas/Pet.YAML'',
       ''/api/components/schemas/nested/foo-bar.yaml'', ''/api/components/schemas/user.yaml''],
      None)"
  by code_simp

lemma schemas_wf: "wf_tree (Directory schemas_entries)"
  by (simp add: schemas_entries_def normal_seg_def)

lemma schemas_stat: "stat_from schemas_fs [''api'', ''components'', ''schemas''] = Some (Directory schemas_entries)"
  by (simp add: schemas_fs_def schemas_entries_def)

text \<open>
  Claim C3, as the specification states it, fails: a regular file named \<open>widget.yml\<close>
  directly in the root directory is not returned.
\<close>

theorem yml_file_not_listed:
  "stat_from schemas_fs [''api'', ''components'', ''schemas'', ''widget.yml''] = Some (RegularFile [])
   \<and> has_suffix (to_lower ''widget.yml'') ''.yml''
   \<and> ''/api/components/schemas/widget.yml''
        \<notin> set (fst (listYAMLFiles schemas_fs ''/api/components/schemas''))"
  by code_simp

text \<open>
  A regular file whose name starts with a dot and ends in \<open>.yaml\<close> is returned, although
  the comment in \<open>listYAMLFiles\<close> says that dot files are skipped.
\<close>

lemma dot_file_listed:
  "dotted ''.hidden.yaml''
   \<and> ''/api/components/schemas/.hidden.yaml''
        \<in> set (fst (listYAMLFiles schemas_fs ''/api/components/schemas''))"
  by code_simp

text \<open>
  Claim C3, amended. The root is an absolute directory \<open>/d1/.../dn\<close>. When it is a
  directory of a well-formed tree, the walk ends without an error; every path it returns
  is a regular file below the root whose name ends in \<open>.yaml\<close> (in any case of letters)
  and that is in no directory whose name starts with a dot; and every such file whose
  own name does not start with a dot is returned. When the root does not exist or is no
  directory, the result is empty and there is no error.
\<close>

theorem fragment_store_lists_yaml_files:
  assumes "list_all normal_seg ds" and "ds \<noteq> []"
  shows "(stat_from fs ds = Some (Directory es) \<and> wf_tree (Directory es) \<longrightarrow>
            snd (listYAMLFiles fs (''/'' @ join_with ''/'' ds)) = None \<and>
            (\<forall>p\<in>set (fst (listYAMLFiles fs (''/'' @ join_with ''/'' ds))).
               \<exists>rs. p = ''/'' @ join_with ''/'' (ds @ rs) \<and> listed_below (Directory es) rs) \<and>
            (\<forall>rs. listed_below (Directory es) rs \<and> \<not> dotted (last rs) \<longrightarrow>
               ''/'' @ join_with ''/'' (ds @ rs)
                 \<in> set (fst (listYAMLFiles fs (''/'' @ join_with ''/'' ds)))))
       \<and> ((case stat_from fs ds of None \<Rightarrow> True | Some n \<Rightarrow> \<not> isDir n) \<longrightarrow>
            listYAMLFiles fs (''/'' @ join_with ''/'' ds) = ([], None))"
proof -
  have a: "snd (listYAMLFiles fs (''/'' @ join_with ''/'' ds)) = None \<and>
            (\<forall>p\<in>set (fst (listYAMLFiles fs (''/'' @ join_with ''/'' ds))).
               \<exists>rs. p = ''/'' @ join_with ''/'' (ds @ rs) \<and> listed_below (Directory es) rs) \<and>
            (\<forall>rs. listed_below (Directory es) rs \<and> \<not> dotted (last rs) \<longrightarrow>
               ''/'' @ join_with ''/'' (ds @ rs)
                 \<in> set (fst (listYAMLFiles fs (''/'' @ join_with ''/'' ds))))"
    if "stat_from fs ds = Some (Directory es)" "wf_tree (Directory es)"
  proof -
    from list_of_directory [OF assms that] obtain files where
      "listYAMLFiles fs (''/'' @ join_with ''/'' ds) = (files, None)"
      "\<forall>p. p \<in> set files \<longleftrightarrow>
          (\<exists>rs. p = ''/'' @ join_with ''/'' (ds @ rs) \<and> listed_below (Directory es) rs)"
      by blast
    then show ?thesis by auto
  qed
  have b: "listYAMLFiles fs (''/'' @ join_with ''/'' ds) = ([], None)"
    if "case stat_from fs ds of None \<Rightarrow> True | Some n \<Rightarrow> \<not> isDir n"
    by (rule list_of_nothing [OF assms that])
  from a b show ?thesis by blast
qed

theorem fragment_store_witness:
  "list_all normal_seg [''api'', ''components'', ''schemas'']
   \<and> wf_tree (Directory schemas_entries)
   \<and> listed_below (Directory schemas_entries) [''nested'', ''foo-bar.yaml'']
   \<and> ''/api/components/schemas/nested/foo-bar.yaml''
        \<in> set (fst (listYAMLFiles schemas_fs ''/api/components/schemas''))
   \<and> snd (listYAMLFiles schemas_fs ''/api/components/schemas'') = None
   \<and> stat_from schemas_fs [''api'', ''components'', ''parameters''] = None
   \<and> listYAMLFiles schemas_fs ''/api/components/parameters'' = ([], None)"
proof -
  have d: "list_all normal_seg [''api'', ''components'', ''schemas'']"
     "[''api'', ''components'', ''schemas''] \<noteq> []"
    by (simp_all add: normal_seg_def)
  have d2: "list_all normal_seg [''api'', ''components'', ''parameters'']"
     "[''api'', ''components'', ''parameters''] \<noteq> []"
    by (simp_all add: normal_seg_def)
  have l: "listed_below (Directory schemas_entries) [''nested'', ''foo-bar.yaml'']"
    "\<not> dotted (last [''nested'', ''foo-bar.yaml''])"
    by code_simp+
  have n: "stat_from schemas_fs [''api'', ''components'', ''parameters''] = None"
    by (simp add: schemas_fs_def)
  from fragment_store_lists_yaml_files [OF d, of schemas_fs schemas_entries]
    schemas_stat schemas_wf l
  have "''/'' @ join_with ''/'' ([''api'', ''components'', ''schemas''] @ [''nested'', ''foo-bar.yaml''])
          \<in> set (fst (listYAMLFiles schemas_fs (''/'' @ join_with ''/'' [''api'', ''components'', ''schemas''])))"
    and "snd (listYAMLFiles schemas_fs (''/'' @ join_with ''/'' [''api'', ''components'', ''schemas''])) = None"
    by blast+
  moreover from fragment_store_lists_yaml_files [OF d2, of schemas_fs schemas_entries] n
  have "listYAMLFiles schemas_fs (''/'' @ join_with ''/'' [''api'', ''components'', ''parameters'']) = ([], None)"
    by simp
  ultimately show ?thesis using d schemas_wf l n by simp
qed

section \<open>The name resolver\<close>













section \<open>The root composer\<close>




text \<open>
  The two functions on the example, from the listing to the text: the fragment store
  lists \<open>fooBar.yaml\<close> before \<open>foobar.yaml\<close>.
\<close>

lemma writeRootYAML_example:
  "writeRootYAML joined_fs example_cfg
   = Inr (header_lines @
      ''paths:'' @ [CHR 0x0A] @
      ''  /pets:'' @ [CHR 0x0A] @
      ''    $ref: ./paths/pets.yaml'' @ [CHR 0x0A] @
      ''components:'' @ [CHR 0x0A] @
      ''  schemas:'' @ [CHR 0x0A] @
      ''    FooBar:'' @ [CHR 0x0A] @
      ''      $ref: ./components/schemas/fooBar.yaml'' @ [CHR 0x0A] @
      ''    Foobar:'' @ [CHR 0x0A] @
      ''      $ref: ./components/schemas/foobar.yaml'' @ [CHR 0x0A] @
      ''    User:'' @ [CHR 0x0A] @
      ''      $ref: ./components/schemas/user.yaml'' @ [CHR 0x0A] @
      ''  parameters:'' @ [CHR 0x0A])"
  by code_simp

lemma writeRootJoinedYAML_example:
  "writeRootJoinedYAML joined_fs example_cfg
   = Inr (header_lines @
      ''paths:'' @ [CHR 0x0A] @
      ''  /pets:'' @ [CHR 0x0A] @
      ''    $ref: #/components/schemas/Foobar'' @ [CHR 0x0A] @
      ''components:'' @ [CHR 0x0A] @
      ''  schemas:'' @ [CHR 0x0A] @
      ''    FooBar:'' @ [CHR 0x0A] @
      ''      type: object'' @ [CHR 0x0A] @
      ''    Foobar:'' @ [CHR 0x0A] @
      ''      type: string'' @ [CHR 0x0A] @
      ''    User:'' @ [CHR 0x0A] @
      ''      type: object'' @ [CHR 0x0A] @
      ''  parameters:'' @ [CHR 0x0A])"
  by code_simp




end
